theory Spec2Isabelle
  imports Main "HOL-Library.Word"
begin

section \<open>The virtual-memory interface of the operating system\<close>

text \<open>
  \<^verbatim>\<open>guarded_page_allocator_posix.cc\<close> consists of four thin wrappers around the
  system calls \<^verbatim>\<open>mmap\<close>, \<^verbatim>\<open>munmap\<close> and \<^verbatim>\<open>mprotect\<close> of
  \<^verbatim>\<open>sys/mman.h\<close>. The system calls are not code of the repository; they are
  modelled here after their POSIX description, restricted to private anonymous mappings,
  which is all the allocator asks for:
  \<^item> the address space is an array of pages of the kernel's page size; a page is either
    unmapped or carries a protection and its bytes;
  \<^item> a system call fails when its arguments are invalid (\<^verbatim>\<open>EINVAL\<close>) or when the
    range is not available (\<^verbatim>\<open>ENOMEM\<close>); a failed call leaves the address space as it was;
  \<^item> where the kernel is free to choose (the placement of a mapping without
    \<^verbatim>\<open>MAP_FIXED\<close>), its choice is an argument of the model, \<open>None\<close> standing
    for "no room";
  \<^item> an anonymous mapping is zero-filled.
  Exhaustion of kernel-internal resources during \<^verbatim>\<open>mprotect\<close> or a
  \<^verbatim>\<open>MAP_FIXED\<close> mapping is outside the model.
\<close>

datatype prot_flag = PROT_READ | PROT_WRITE | PROT_EXEC

definition PROT_NONE :: "prot_flag set" where
  "PROT_NONE = {}"

datatype map_flag = MAP_SHARED | MAP_PRIVATE | MAP_FIXED | MAP_ANONYMOUS

record page =
  prot :: "prot_flag set"
  bytes :: "nat \<Rightarrow> 8 word"

record kernel =
  os_page_size :: nat
  pages :: "nat \<Rightarrow> page option"

text \<open>
  Addresses and sizes are 64-bit (\<^verbatim>\<open>void*\<close>, \<^verbatim>\<open>uintptr_t\<close>, \<^verbatim>\<open>size_t\<close>),
  modelled as natural numbers with the bound written out. \<^verbatim>\<open>MAP_FAILED\<close> is
  \<^verbatim>\<open>(void*)-1\<close>; no mapping reaches that address.
\<close>

definition MAP_FAILED :: nat where
  "MAP_FAILED = 2 ^ 64 - 1"

text \<open>The pages that the byte range \<open>[addr, addr + len)\<close> touches are
  \<open>first_page \<le> i < end_page\<close>.\<close>

definition first_page :: "kernel \<Rightarrow> nat \<Rightarrow> nat" where
  "first_page os addr = addr div os_page_size os"

definition end_page :: "kernel \<Rightarrow> nat \<Rightarrow> nat \<Rightarrow> nat" where
  "end_page os addr len = (addr + len + os_page_size os - 1) div os_page_size os"

definition in_range :: "kernel \<Rightarrow> nat \<Rightarrow> nat \<Rightarrow> nat \<Rightarrow> bool" where
  "in_range os addr len i \<longleftrightarrow> first_page os addr \<le> i \<and> i < end_page os addr len"

definition range_mapped :: "kernel \<Rightarrow> nat \<Rightarrow> nat \<Rightarrow> bool" where
  "range_mapped os addr len \<longleftrightarrow>
     list_all (\<lambda>i. pages os i \<noteq> None) [first_page os addr ..< end_page os addr len]"

definition range_free :: "kernel \<Rightarrow> nat \<Rightarrow> nat \<Rightarrow> bool" where
  "range_free os addr len \<longleftrightarrow>
     list_all (\<lambda>i. pages os i = None) [first_page os addr ..< end_page os addr len]"

definition fresh_page :: "prot_flag set \<Rightarrow> page" where
  "fresh_page pr = \<lparr>prot = pr, bytes = (\<lambda>_. 0)\<rparr>"

definition map_anonymous :: "kernel \<Rightarrow> nat \<Rightarrow> nat \<Rightarrow> prot_flag set \<Rightarrow> kernel" where
  "map_anonymous os addr len pr =
     os\<lparr>pages := (\<lambda>i. if in_range os addr len i then Some (fresh_page pr) else pages os i)\<rparr>"

text \<open>
  \<^verbatim>\<open>void* mmap(void* addr, size_t len, int prot, int flags, int fd, off_t off)\<close>.
  The result is the address of the mapping, or \<^verbatim>\<open>MAP_FAILED\<close>. With
  \<^verbatim>\<open>MAP_FIXED\<close> the mapping is placed at \<open>addr\<close> and replaces whatever was
  mapped there; without it the kernel places the mapping in a free range of its choice
  (\<open>placement\<close>), never at address 0; a choice that is not a free, page-aligned range
  of the address space counts as "no room". The file descriptor of an anonymous mapping is
  ignored, as on Linux. A request without \<^verbatim>\<open>MAP_ANONYMOUS\<close> asks for a file mapping,
  which the model does not have, and is refused.
\<close>

definition mmap ::
  "kernel \<Rightarrow> nat \<Rightarrow> nat \<Rightarrow> prot_flag set \<Rightarrow> map_flag set \<Rightarrow> int \<Rightarrow> nat \<Rightarrow> nat option
     \<Rightarrow> nat \<times> kernel" where
  "mmap os addr len pr flags fd off placement =
     (if len = 0 \<or> off mod os_page_size os \<noteq> 0
         \<or> (MAP_PRIVATE \<in> flags) = (MAP_SHARED \<in> flags)
         \<or> MAP_ANONYMOUS \<notin> flags then (MAP_FAILED, os)
      else if MAP_FIXED \<in> flags then
        (if addr mod os_page_size os \<noteq> 0 \<or> MAP_FAILED < addr + len then (MAP_FAILED, os)
         else (addr, map_anonymous os addr len pr))
      else
        (case placement of
           None \<Rightarrow> (MAP_FAILED, os)
         | Some a \<Rightarrow>
             if a = 0 \<or> a mod os_page_size os \<noteq> 0 \<or> MAP_FAILED < a + len
                \<or> \<not> range_free os a len then (MAP_FAILED, os)
             else (a, map_anonymous os a len pr)))"

text \<open>\<^verbatim>\<open>int munmap(void* addr, size_t len)\<close>: 0, or -1 on failure. Pages of the range
  that are not mapped are skipped.\<close>

definition munmap :: "kernel \<Rightarrow> nat \<Rightarrow> nat \<Rightarrow> int \<times> kernel" where
  "munmap os addr len =
     (if addr mod os_page_size os \<noteq> 0 \<or> len = 0 \<or> MAP_FAILED < addr + len then (- 1, os)
      else (0, os\<lparr>pages := (\<lambda>i. if in_range os addr len i then None else pages os i)\<rparr>))"

text \<open>\<^verbatim>\<open>int mprotect(void* addr, size_t len, int prot)\<close>: 0, or -1 on failure
  (\<open>addr\<close> not page-aligned, or a page of the range not mapped). The bytes of the pages
  are kept.\<close>

definition mprotect :: "kernel \<Rightarrow> nat \<Rightarrow> nat \<Rightarrow> prot_flag set \<Rightarrow> int \<times> kernel" where
  "mprotect os addr len pr =
     (if addr mod os_page_size os \<noteq> 0 then (- 1, os)
      else if len = 0 then (0, os)
      else if \<not> range_mapped os addr len then (- 1, os)
      else (0, os\<lparr>pages := (\<lambda>i. if in_range os addr len i
                                  then map_option (\<lambda>pg. pg\<lparr>prot := pr\<rparr>) (pages os i)
                                  else pages os i)\<rparr>))"

subsection \<open>What the program observes: loads, stores and faults\<close>

datatype 'a access = Faulted | Accessed 'a

definition prot_at :: "kernel \<Rightarrow> nat \<Rightarrow> prot_flag set option" where
  "prot_at os a = map_option prot (pages os (a div os_page_size os))"

definition load :: "kernel \<Rightarrow> nat \<Rightarrow> 8 word access" where
  "load os a =
     (case pages os (a div os_page_size os) of
        None \<Rightarrow> Faulted
      | Some pg \<Rightarrow> if PROT_READ \<in> prot pg then Accessed (bytes pg (a mod os_page_size os))
                   else Faulted)"

definition store :: "kernel \<Rightarrow> nat \<Rightarrow> 8 word \<Rightarrow> kernel access" where
  "store os a v =
     (case pages os (a div os_page_size os) of
        None \<Rightarrow> Faulted
      | Some pg \<Rightarrow>
          if PROT_WRITE \<in> prot pg
          then Accessed (os\<lparr>pages := (pages os)(a div os_page_size os \<mapsto>
                            pg\<lparr>bytes := (bytes pg)(a mod os_page_size os := v)\<rparr>)\<rparr>)
          else Faulted)"

section \<open>The POSIX backend of the guarded page allocator\<close>

text \<open>
  The two fields of \<^verbatim>\<open>state_\<close> that the backend reads. \<^verbatim>\<open>RegionSize()\<close> is
  declared in the allocator's header and is a parameter here. \<^verbatim>\<open>CHECK\<close> and
  \<^verbatim>\<open>PCHECK\<close> terminate the process when their condition fails;
  \<^verbatim>\<open>DCHECK_EQ\<close> does so only in builds with \<^verbatim>\<open>DCHECK\<close>s enabled.
\<close>

record AllocatorState =
  page_size :: nat
  pages_base_addr :: nat

datatype 'a outcome = Returned 'a | Aborted

definition MapRegion ::
  "(AllocatorState \<Rightarrow> nat) \<Rightarrow> AllocatorState \<Rightarrow> kernel \<Rightarrow> nat option
     \<Rightarrow> (nat \<times> kernel) outcome" where
  "MapRegion RegionSize state os placement =
     Returned (mmap os 0 (RegionSize state) PROT_NONE {MAP_ANONYMOUS, MAP_PRIVATE} (- 1) 0
                 placement)"

definition UnmapRegion ::
  "bool \<Rightarrow> (AllocatorState \<Rightarrow> nat) \<Rightarrow> AllocatorState \<Rightarrow> kernel \<Rightarrow> kernel outcome" where
  "UnmapRegion dcheck_is_on RegionSize state os =
     (if pages_base_addr state = 0 then Aborted
      else
        (case munmap os (pages_base_addr state) (RegionSize state) of
           (err, os') \<Rightarrow> if dcheck_is_on \<and> err \<noteq> 0 then Aborted else Returned os'))"

definition MarkPageReadWrite :: "AllocatorState \<Rightarrow> kernel \<Rightarrow> nat \<Rightarrow> kernel outcome" where
  "MarkPageReadWrite state os ptr =
     (case mprotect os ptr (page_size state) {PROT_READ, PROT_WRITE} of
        (err, os') \<Rightarrow> if err = 0 then Returned os' else Aborted)"

definition MarkPageInaccessible :: "AllocatorState \<Rightarrow> kernel \<Rightarrow> nat \<Rightarrow> kernel outcome" where
  "MarkPageInaccessible state os ptr =
     (case mmap os ptr (page_size state) PROT_NONE {MAP_FIXED, MAP_ANONYMOUS, MAP_PRIVATE} 0 0
             None of
        (err, os') \<Rightarrow> if err = ptr then Returned os' else Aborted)"

section \<open>The pool of guarded slots\<close>

text \<open>
  The allocator core (\<^verbatim>\<open>Initialize\<close>, \<^verbatim>\<open>PickFree\<close>, \<^verbatim>\<open>Allocate\<close>) is
  not among the source files; its model follows sections 3, 4.1, 4.2 and 4.4 of the
  specification. The pseudo-random draws of a call are arguments of the model.
\<close>

text \<open>Modelled from the spec: the states of a slot (sections 3 and 4.4), whose declaration
  is missing from the sources.\<close>

datatype slot_status = Free | Allocated | Quarantined

text \<open>Modelled from the spec: the slot record of the metadata table (section 3), whose
  declaration is missing from the sources; \<open>accessible\<close> is the physical state of the
  slot's page, and the trace, thread and time fields are left out.\<close>

record slot =
  status :: slot_status
  requested_size :: nat
  placement_offset :: nat
  accessible :: bool

text \<open>Modelled from the spec: the pool, of which the sources have no declaration: the
  page size, the base of the reserved region, one metadata record per slot, and the
  collection of free slot indices of the free-slot selector (section 4.2).\<close>

record pool =
  pool_page_size :: nat
  region_base :: nat
  slots :: "slot list"
  free_slots :: "nat list"

text \<open>Modelled from the spec: the one way initialisation fails (sections 4.1 and 7).\<close>

datatype init_error = RegionUnavailable

text \<open>Modelled from the spec: \<^verbatim>\<open>Initialize(page_size, slot_count)\<close> (section 4.1),
  missing from the sources. \<open>reservation\<close> is the answer of the backend's
  \<^verbatim>\<open>ReserveRegion\<close>, \<open>None\<close> for a failure. It "fails with
  \<^verbatim>\<open>RegionUnavailable\<close> if reservation fails; all slots start \<^verbatim>\<open>Free\<close>".\<close>

definition Initialize :: "nat \<Rightarrow> nat \<Rightarrow> nat option \<Rightarrow> init_error + pool" where
  "Initialize page_sz slot_count reservation =
     (case reservation of
        None \<Rightarrow> Inl RegionUnavailable
      | Some base \<Rightarrow>
          Inr \<lparr>pool_page_size = page_sz, region_base = base,
               slots = replicate slot_count
                 \<lparr>status = Free, requested_size = 0, placement_offset = 0, accessible = False\<rparr>,
               free_slots = [0..<slot_count]\<rparr>)"

text \<open>Modelled from the spec: the address of a slot's accessible page, "derivable from
  index and page size" (section 3), missing from the sources. Each slot is one page with a
  guard page of its own on either side ("logically \<^verbatim>\<open>slot_count * 3\<close> pages").\<close>

definition slot_base_address :: "pool \<Rightarrow> nat \<Rightarrow> nat" where
  "slot_base_address p i = region_base p + (3 * i + 1) * pool_page_size p"

text \<open>Modelled from the spec: \<^verbatim>\<open>PickFree()\<close> (section 4.2), missing from the
  sources: "returns \<^verbatim>\<open>None\<close> if empty (pool exhausted); otherwise selects uniformly at
  random among free indices". \<open>rnd\<close> is the draw of the pseudo-random source.\<close>

definition PickFree :: "pool \<Rightarrow> nat \<Rightarrow> nat option" where
  "PickFree p rnd =
     (if free_slots p = [] then None
      else Some (free_slots p ! (rnd mod length (free_slots p))))"

text \<open>Modelled from the spec: the placement of an allocation within its page (sections 3
  and 4.4), missing from the sources: left-aligned, or right-aligned so that the allocation
  ends at the right guard page as far as the alignment allows; a request of zero bytes is
  placed as one of one byte.\<close>

definition compute_placement :: "nat \<Rightarrow> nat \<Rightarrow> nat \<Rightarrow> bool \<Rightarrow> nat" where
  "compute_placement page_sz sz alignment right_aligned =
     (if right_aligned then ((page_sz - max sz 1) div alignment) * alignment else 0)"

text \<open>Modelled from the spec: \<^verbatim>\<open>Allocate(size, alignment)\<close> (section 4.4), missing
  from the sources. It returns "no slot" (\<open>None\<close>) when the size exceeds the page size or
  the alignment cannot be satisfied within a page (it is zero, or wider than the page), and
  when \<^verbatim>\<open>PickFree\<close> finds no free slot. Otherwise the slot picked becomes
  \<^verbatim>\<open>Allocated\<close>, its page is made accessible, the requested size and the placement
  are recorded, and the pointer into the slot's page is returned.\<close>

definition Allocate ::
  "pool \<Rightarrow> nat \<Rightarrow> nat \<Rightarrow> nat \<Rightarrow> bool \<Rightarrow> nat option \<times> pool" where
  "Allocate p sz alignment rnd right_aligned =
     (if pool_page_size p < sz \<or> alignment = 0 \<or> pool_page_size p < alignment then (None, p)
      else
        (case PickFree p rnd of
           None \<Rightarrow> (None, p)
         | Some i \<Rightarrow>
             let off = compute_placement (pool_page_size p) sz alignment right_aligned in
             (Some (slot_base_address p i + off),
              p\<lparr>slots := (slots p)[i := \<lparr>status = Allocated, requested_size = sz,
                                          placement_offset = off, accessible = True\<rparr>],
                free_slots := remove1 i (free_slots p)\<rparr>)))"

section \<open>Example states\<close>

text \<open>A kernel with 4096-byte pages: with nothing mapped; with nine pages reserved at
  address 65536; and with the second of them in use, every byte of it holding \<open>b\<close>.
  An allocator state with the base of that region; one with a null base, as before any
  reservation; and one that holds the result of a failed reservation as its base.\<close>

definition kernel_empty :: kernel where
  "kernel_empty = \<lparr>os_page_size = 4096, pages = (\<lambda>_. None)\<rparr>"

definition kernel_reserved :: kernel where
  "kernel_reserved =
     \<lparr>os_page_size = 4096,
      pages = (\<lambda>i. if 16 \<le> i \<and> i < 25 then Some (fresh_page PROT_NONE) else None)\<rparr>"

definition filled_page :: "8 word \<Rightarrow> page" where
  "filled_page b = \<lparr>prot = {PROT_READ, PROT_WRITE}, bytes = (\<lambda>_. b)\<rparr>"

definition kernel_in_use :: "8 word \<Rightarrow> kernel" where
  "kernel_in_use b =
     \<lparr>os_page_size = 4096,
      pages = (\<lambda>i. if i = 17 then Some (filled_page b)
                   else if 16 \<le> i \<and> i < 25 then Some (fresh_page PROT_NONE) else None)\<rparr>"

definition state_4k :: AllocatorState where
  "state_4k = \<lparr>page_size = 4096, pages_base_addr = 65536\<rparr>"

definition state_unreserved :: AllocatorState where
  "state_unreserved = \<lparr>page_size = 4096, pages_base_addr = 0\<rparr>"

definition state_failed :: AllocatorState where
  "state_failed = \<lparr>page_size = 4096, pages_base_addr = MAP_FAILED\<rparr>"

definition nine_pages :: "AllocatorState \<Rightarrow> nat" where
  "nine_pages st = 9 * page_size st"

definition pool_4_slots :: pool where
  "pool_4_slots =
     \<lparr>pool_page_size = 4096, region_base = 65536,
      slots = replicate 4
        \<lparr>status = Free, requested_size = 0, placement_offset = 0, accessible = False\<rparr>,
      free_slots = [0..<4]\<rparr>"

section \<open>Page arithmetic and the effect of each system call\<close>

lemma end_page_aligned:
  assumes "0 < os_page_size os" "os_page_size os dvd p"
  shows "end_page os p (os_page_size os) = Suc (p div os_page_size os)"
proof -
  obtain k where k: "p = os_page_size os * k" using assms(2) by (rule dvdE)
  have "k * os_page_size os + os_page_size os + os_page_size os - 1
          = (os_page_size os - 1) + Suc k * os_page_size os" using assms(1) by simp
  then have "(k * os_page_size os + os_page_size os + os_page_size os - 1) div os_page_size os = Suc k"
    using assms(1) by (simp only: div_mult_self1) simp
  then show ?thesis using k assms(1) by (simp add: end_page_def mult.commute)
qed

lemma in_range_one_page:
  assumes "0 < os_page_size os" "os_page_size os dvd p"
  shows "in_range os p (os_page_size os) i \<longleftrightarrow> i = p div os_page_size os"
  using end_page_aligned[OF assms] by (auto simp: in_range_def first_page_def)

lemma same_page_iff:
  assumes "0 < (ps::nat)" "ps dvd p"
  shows "a div ps = p div ps \<longleftrightarrow> p \<le> a \<and> a < p + ps"
proof -
  obtain k where k: "p = ps * k" using assms(2) by (rule dvdE)
  have "a div ps = k \<longleftrightarrow> k * ps \<le> a \<and> a < k * ps + ps"
  proof
    assume "a div ps = k"
    then show "k * ps \<le> a \<and> a < k * ps + ps"
      using assms(1) by (metis div_mult_mod_eq le_add1 mod_less_divisor nat_add_left_cancel_less)
  next
    assume "k * ps \<le> a \<and> a < k * ps + ps"
    then show "a div ps = k" using assms(1)
      by (intro div_nat_eqI) (simp_all add: mult.commute)
  qed
  then show ?thesis using k assms(1) by (simp add: mult.commute)
qed

lemma in_range_covers:
  assumes "0 < os_page_size os" "p \<le> a" "a < p + len"
  shows "in_range os p len (a div os_page_size os)"
proof -
  let ?ps = "os_page_size os"
  have 1: "p div ?ps \<le> a div ?ps" using assms(2) by (rule div_le_mono)
  have "a + ?ps \<le> p + len + ?ps - 1" using assms by linarith
  then have "(a + ?ps) div ?ps \<le> (p + len + ?ps - 1) div ?ps" by (rule div_le_mono)
  moreover have "(a + ?ps) div ?ps = Suc (a div ?ps)"
    using assms(1) div_add_self2[of ?ps a] by simp
  ultimately have "a div ?ps < (p + len + ?ps - 1) div ?ps" by simp
  with 1 show ?thesis by (simp add: in_range_def first_page_def end_page_def)
qed

lemma in_range_exact:
  assumes "0 < os_page_size os" "os_page_size os dvd p" "os_page_size os dvd len"
  shows "in_range os p len (a div os_page_size os) \<longleftrightarrow> p \<le> a \<and> a < p + len"
proof -
  let ?ps = "os_page_size os"
  obtain k where k: "p = ?ps * k" using assms(2) by (rule dvdE)
  obtain m where m: "len = ?ps * m" using assms(3) by (rule dvdE)
  have e: "(p + len + ?ps - 1) div ?ps = k + m"
  proof -
    have "p + len + ?ps - 1 = (?ps - 1) + (k + m) * ?ps" using assms(1) k m by (simp add: algebra_simps)
    then show ?thesis using assms(1) by (simp only: div_mult_self1) simp
  qed
  have "k \<le> a div ?ps \<longleftrightarrow> k * ?ps \<le> a" using assms(1) by (simp add: less_eq_div_iff_mult_less_eq)
  moreover have "a div ?ps < k + m \<longleftrightarrow> a < (k + m) * ?ps" using assms(1) by (simp add: div_less_iff_less_mult)
  ultimately show ?thesis using e k m assms(1) by (simp add: in_range_def first_page_def end_page_def algebra_simps)
qed

lemma page_size_map_anonymous [simp]:
  "os_page_size (map_anonymous os addr len pr) = os_page_size os"
  by (simp add: map_anonymous_def)

lemma pages_map_anonymous_page:
  assumes "0 < os_page_size os" "os_page_size os dvd p"
  shows "pages (map_anonymous os p (os_page_size os) pr) i =
           (if i = p div os_page_size os then Some (fresh_page pr) else pages os i)"
  using in_range_one_page[OF assms] by (simp add: map_anonymous_def)

lemma mmap_fixed_page:
  assumes "0 < os_page_size os" "os_page_size os dvd p" "p + os_page_size os \<le> MAP_FAILED"
  shows "mmap os p (os_page_size os) pr {MAP_FIXED, MAP_ANONYMOUS, MAP_PRIVATE} fd 0 k =
           (p, map_anonymous os p (os_page_size os) pr)"
  using assms by (simp add: mmap_def)

lemma MarkPageInaccessible_aligned:
  assumes "0 < os_page_size os" "page_size st = os_page_size os" "os_page_size os dvd p"
    "p + page_size st \<le> MAP_FAILED"
  shows "MarkPageInaccessible st os p = Returned (map_anonymous os p (os_page_size os) PROT_NONE)"
  using assms by (simp add: MarkPageInaccessible_def mmap_fixed_page)

lemma MarkPageInaccessible_Returned:
  assumes "0 < os_page_size os" "page_size st = os_page_size os"
    "MarkPageInaccessible st os p = Returned os'"
  shows "os' = os \<or> (os_page_size os dvd p \<and> os' = map_anonymous os p (os_page_size os) PROT_NONE)"
  using assms by (auto simp: MarkPageInaccessible_def mmap_def split: if_splits)

lemma range_mapped_page:
  assumes "0 < os_page_size os" "os_page_size os dvd p"
  shows "range_mapped os p (os_page_size os) \<longleftrightarrow> pages os (p div os_page_size os) \<noteq> None"
  using end_page_aligned[OF assms] by (simp add: range_mapped_def first_page_def)

lemma mprotect_page:
  assumes "0 < os_page_size os" "os_page_size os dvd p" "pages os (p div os_page_size os) = Some pg"
  shows "mprotect os p (os_page_size os) pr =
           (0, os\<lparr>pages := (pages os)(p div os_page_size os \<mapsto> pg\<lparr>prot := pr\<rparr>)\<rparr>)"
proof -
  have "(\<lambda>i. if in_range os p (os_page_size os) i
             then map_option (\<lambda>pg. pg\<lparr>prot := pr\<rparr>) (pages os i) else pages os i)
          = (pages os)(p div os_page_size os \<mapsto> pg\<lparr>prot := pr\<rparr>)"
    using assms by (auto simp: in_range_one_page fun_eq_iff)
  then show ?thesis using assms by (simp add: mprotect_def range_mapped_page)
qed

lemma MarkPageReadWrite_mapped:
  assumes "0 < os_page_size os" "page_size st = os_page_size os" "os_page_size os dvd p"
    "pages os (p div os_page_size os) = Some pg"
  shows "MarkPageReadWrite st os p =
           Returned (os\<lparr>pages := (pages os)(p div os_page_size os \<mapsto>
                                     pg\<lparr>prot := {PROT_READ, PROT_WRITE}\<rparr>)\<rparr>)"
  using assms by (simp add: MarkPageReadWrite_def mprotect_page)

lemma MarkPageReadWrite_Returned:
  assumes "0 < os_page_size os" "page_size st = os_page_size os"
    "MarkPageReadWrite st os p = Returned os'"
  shows "os_page_size os dvd p \<and> (\<exists>pg. pages os (p div os_page_size os) = Some pg \<and>
           os' = os\<lparr>pages := (pages os)(p div os_page_size os \<mapsto>
                                     pg\<lparr>prot := {PROT_READ, PROT_WRITE}\<rparr>)\<rparr>)"
proof -
  have al: "os_page_size os dvd p"
    using assms by (auto simp: MarkPageReadWrite_def mprotect_def split: if_splits)
  have "range_mapped os p (os_page_size os)"
    using assms by (auto simp: MarkPageReadWrite_def mprotect_def split: if_splits)
  then obtain pg where pg: "pages os (p div os_page_size os) = Some pg"
    using range_mapped_page[OF assms(1) al] by auto
  show ?thesis using MarkPageReadWrite_mapped[OF assms(1,2) al pg] assms(3) al pg by auto
qed

lemma range_free_covers:
  assumes "0 < os_page_size os" "range_free os p len" "p \<le> a" "a < p + len"
  shows "pages os (a div os_page_size os) = None"
proof -
  have "in_range os p len (a div os_page_size os)"
    using assms(1,3,4) by (rule in_range_covers)
  then show ?thesis using assms(2)
    by (simp add: range_free_def in_range_def list_all_iff)
qed

lemma MapRegion_cases:
  assumes "MapRegion RegionSize st os k = Returned (r, os')"
  shows "(r = MAP_FAILED \<and> os' = os) \<or>
         (r \<noteq> MAP_FAILED \<and> r \<noteq> 0 \<and> r mod os_page_size os = 0 \<and> 0 < RegionSize st \<and>
          r + RegionSize st \<le> MAP_FAILED \<and> range_free os r (RegionSize st) \<and>
          os' = map_anonymous os r (RegionSize st) PROT_NONE)"
  using assms by (auto simp: MapRegion_def mmap_def split: if_splits option.splits)

lemma map_anonymous_covers:
  assumes "0 < os_page_size os" "p \<le> a" "a < p + len"
  shows "pages (map_anonymous os p len pr) (a div os_page_size os) = Some (fresh_page pr)"
  using in_range_covers[OF assms] by (simp add: map_anonymous_def)

lemma munmap_region:
  assumes "0 < os_page_size os" "os_page_size os dvd base" "0 < len" "base + len \<le> MAP_FAILED"
  shows "munmap os base len =
           (0, os\<lparr>pages := (\<lambda>i. if in_range os base len i then None else pages os i)\<rparr>)"
  using assms by (simp add: munmap_def)

lemma fresh_page_inaccessible:
  assumes "pages os (a div os_page_size os) = Some (fresh_page PROT_NONE)"
  shows "prot_at os a = Some PROT_NONE \<and> load os a = Faulted \<and> store os a v = Faulted"
  using assms by (simp add: prot_at_def load_def store_def fresh_page_def PROT_NONE_def)

lemma map_anonymous_page_inaccessible:
  assumes "0 < os_page_size os" "os_page_size os dvd p" "p \<le> a" "a < p + os_page_size os"
  shows "prot_at (map_anonymous os p (os_page_size os) PROT_NONE) a = Some PROT_NONE \<and>
         load (map_anonymous os p (os_page_size os) PROT_NONE) a = Faulted \<and>
         store (map_anonymous os p (os_page_size os) PROT_NONE) a v = Faulted"
proof -
  have "a div os_page_size os = p div os_page_size os"
    using assms same_page_iff[of "os_page_size os" p a] by simp
  then have "pages (map_anonymous os p (os_page_size os) PROT_NONE)
               (a div os_page_size (map_anonymous os p (os_page_size os) PROT_NONE))
             = Some (fresh_page PROT_NONE)"
    using assms by (simp add: pages_map_anonymous_page)
  then show ?thesis by (rule fresh_page_inaccessible)
qed

lemma map_anonymous_twice:
  "map_anonymous (map_anonymous os p len pr) p len pr = map_anonymous os p len pr"
  by (simp add: map_anonymous_def in_range_def first_page_def end_page_def cong: if_cong)

lemma MarkPageInaccessible_twice:
  assumes "MarkPageInaccessible st os p = Returned os1"
  shows "MarkPageInaccessible st os1 p = Returned os1"
  using assms
  by (auto simp: MarkPageInaccessible_def mmap_def map_anonymous_twice split: if_splits)

lemma MarkPageReadWrite_twice:
  assumes "0 < os_page_size os" "page_size st = os_page_size os"
    "MarkPageReadWrite st os p = Returned os1"
  shows "MarkPageReadWrite st os1 p = Returned os1"
proof -
  from MarkPageReadWrite_Returned[OF assms] obtain pg where
    al: "os_page_size os dvd p" and pg: "pages os (p div os_page_size os) = Some pg" and
    os1: "os1 = os\<lparr>pages := (pages os)(p div os_page_size os \<mapsto>
                                     pg\<lparr>prot := {PROT_READ, PROT_WRITE}\<rparr>)\<rparr>" by blast
  have "MarkPageReadWrite st os1 p =
          Returned (os1\<lparr>pages := (pages os1)(p div os_page_size os1 \<mapsto>
                      (pg\<lparr>prot := {PROT_READ, PROT_WRITE}\<rparr>)\<lparr>prot := {PROT_READ, PROT_WRITE}\<rparr>)\<rparr>)"
    by (rule MarkPageReadWrite_mapped) (use assms al in \<open>simp_all add: os1\<close>)
  then show ?thesis by (simp add: os1)
qed

lemma reuse_page_reads_zero:
  assumes "0 < os_page_size os" "page_size st = os_page_size os" "os_page_size os dvd p"
    "p + page_size st \<le> MAP_FAILED"
  shows "\<exists>x x'. MarkPageInaccessible st os p = Returned x \<and>
           MarkPageReadWrite st x p = Returned x' \<and>
           (\<forall>a. p \<le> a \<and> a < p + page_size st \<longrightarrow> load x' a = Accessed 0)"
proof -
  let ?x = "map_anonymous os p (os_page_size os) PROT_NONE"
  let ?k = "p div os_page_size os"
  let ?x' = "?x\<lparr>pages := (pages ?x)(?k \<mapsto> (fresh_page PROT_NONE)\<lparr>prot := {PROT_READ, PROT_WRITE}\<rparr>)\<rparr>"
  have 1: "MarkPageInaccessible st os p = Returned ?x"
    using assms by (rule MarkPageInaccessible_aligned)
  have pg: "pages ?x (p div os_page_size ?x) = Some (fresh_page PROT_NONE)"
    using assms(1,3) by (simp add: pages_map_anonymous_page)
  have 2: "MarkPageReadWrite st ?x p = Returned ?x'"
    using MarkPageReadWrite_mapped[of ?x st p, OF _ _ _ pg] assms by simp
  have "load ?x' a = Accessed 0" if "p \<le> a \<and> a < p + page_size st" for a
  proof -
    have "a div os_page_size os = ?k"
      using that assms same_page_iff[of "os_page_size os" p a] by simp
    then show ?thesis by (simp add: load_def fresh_page_def)
  qed
  with 1 2 show ?thesis by blast
qed

section \<open>The pool: one allocation\<close>

lemma Allocate_succeeds:
  assumes "sz \<le> pool_page_size p" "0 < alignment" "alignment \<le> pool_page_size p"
    "free_slots p \<noteq> []"
  shows "\<exists>q p'. Allocate p sz alignment rnd right_aligned = (Some q, p') \<and>
           pool_page_size p' = pool_page_size p \<and>
           Suc (length (free_slots p')) = length (free_slots p)"
proof -
  let ?i = "free_slots p ! (rnd mod length (free_slots p))"
  have "?i \<in> set (free_slots p)" using assms(4) by simp
  then have "Suc (length (remove1 ?i (free_slots p))) = length (free_slots p)"
    using assms(4) by (simp add: length_remove1 Suc_pred)
  then show ?thesis using assms by (simp add: Allocate_def PickFree_def Let_def)
qed

lemma Allocate_exhausted:
  assumes "free_slots p = []"
  shows "Allocate p sz alignment rnd right_aligned = (None, p)"
  using assms by (simp add: Allocate_def PickFree_def)

lemma Initialize_fresh:
  assumes "Initialize page_sz n reservation = Inr p"
  shows "pool_page_size p = page_sz \<and> length (free_slots p) = n \<and> length (slots p) = n \<and>
         (\<forall>s \<in> set (slots p). status s = Free)"
  using assms by (auto simp: Initialize_def split: option.splits)

section \<open>The example states, evaluated\<close>

lemma MapRegion_nine_pages:
  "MapRegion nine_pages state_unreserved kernel_empty (Some 65536) =
     Returned (65536, kernel_reserved)"
  by (simp add: MapRegion_def mmap_def kernel_empty_def nine_pages_def
      state_unreserved_def MAP_FAILED_def range_free_def list_all_iff map_anonymous_def
      in_range_def first_page_def end_page_def kernel_reserved_def fun_eq_iff)

lemma kernel_reserved_facts:
  "0 < os_page_size kernel_reserved" "page_size state_4k = os_page_size kernel_reserved"
  "os_page_size kernel_reserved dvd 69632"
  "pages kernel_reserved (69632 div os_page_size kernel_reserved) = Some (fresh_page PROT_NONE)"
  by (simp_all add: kernel_reserved_def state_4k_def)

lemma MarkPageReadWrite_kernel_reserved:
  "MarkPageReadWrite state_4k kernel_reserved 69632 = Returned (kernel_in_use 0)"
proof -
  have "kernel_reserved\<lparr>pages := (pages kernel_reserved)(69632 div os_page_size kernel_reserved \<mapsto>
               (fresh_page PROT_NONE)\<lparr>prot := {PROT_READ, PROT_WRITE}\<rparr>)\<rparr> = kernel_in_use 0"
    by (auto simp: kernel_reserved_def kernel_in_use_def fresh_page_def filled_page_def fun_eq_iff)
  then show ?thesis using MarkPageReadWrite_mapped[OF kernel_reserved_facts] by simp
qed

lemma kernel_in_use_facts:
  "0 < os_page_size (kernel_in_use b)" "page_size state_4k = os_page_size (kernel_in_use b)"
  "os_page_size (kernel_in_use b) dvd 69632" "69632 + page_size state_4k \<le> MAP_FAILED"
  by (simp_all add: kernel_in_use_def state_4k_def MAP_FAILED_def)

lemma MarkPageInaccessible_kernel_in_use:
  "MarkPageInaccessible state_4k (kernel_in_use b) 69632 = Returned kernel_reserved"
proof -
  have "map_anonymous (kernel_in_use b) 69632 (os_page_size (kernel_in_use b)) PROT_NONE
          = kernel_reserved"
    by (auto simp: map_anonymous_def in_range_def first_page_def end_page_def kernel_in_use_def
        kernel_reserved_def fun_eq_iff)
  then show ?thesis using MarkPageInaccessible_aligned[OF kernel_in_use_facts] by simp
qed

section \<open>The backend primitives\<close>

text \<open>
  Throughout, the page size recorded in \<^verbatim>\<open>state_\<close> is the kernel's page size
  (the allocator takes it from the platform), and a pointer is page-aligned when the page
  size divides it.
\<close>

subsection \<open>Making a page inaccessible\<close>

text \<open>
  Claim C1. For a page-aligned address \<open>p\<close>, \<open>MarkPageInaccessible\<close> returns, whatever
  was mapped at \<open>p\<close> before (nothing, a page without access, a page in use), and after it
  every address of \<open>[p, p + page_size)\<close> has protection \<open>PROT_NONE\<close>: a load from it
  and a store to it fault.
\<close>

theorem MarkPageInaccessible_page_faults:
  assumes "0 < os_page_size os" "page_size st = os_page_size os" "os_page_size os dvd p"
    "p + page_size st \<le> MAP_FAILED"
  shows "\<exists>os'. MarkPageInaccessible st os p = Returned os' \<and>
           (\<forall>a v. p \<le> a \<and> a < p + page_size st \<longrightarrow>
              prot_at os' a = Some PROT_NONE \<and> load os' a = Faulted \<and> store os' a v = Faulted)"
  using MarkPageInaccessible_aligned[OF assms] map_anonymous_page_inaccessible[OF assms(1,3)]
    assms(2) by simp

theorem MarkPageInaccessible_page_faults_witness:
  "0 < os_page_size (kernel_in_use 65) \<and> page_size state_4k = os_page_size (kernel_in_use 65) \<and>
   os_page_size (kernel_in_use 65) dvd 69632 \<and> 69632 + page_size state_4k \<le> MAP_FAILED \<and>
   load (kernel_in_use 65) 70000 = Accessed 65 \<and>
   69632 \<le> (70000::nat) \<and> 70000 < 69632 + page_size state_4k \<and>
   (\<exists>os'. MarkPageInaccessible state_4k (kernel_in_use 65) 69632 = Returned os' \<and>
           prot_at os' 70000 = Some PROT_NONE \<and> load os' 70000 = Faulted \<and>
           store os' 70000 7 = Faulted)"
proof -
  have h1: "0 < os_page_size (kernel_in_use 65)" by (simp add: kernel_in_use_def)
  have h2: "page_size state_4k = os_page_size (kernel_in_use 65)"
    by (simp add: kernel_in_use_def state_4k_def)
  have h3: "os_page_size (kernel_in_use 65) dvd 69632" by (simp add: kernel_in_use_def)
  have h4: "69632 + page_size state_4k \<le> MAP_FAILED" by (simp add: state_4k_def MAP_FAILED_def)
  have h5: "69632 \<le> (70000::nat) \<and> 70000 < 69632 + page_size state_4k"
    by (simp add: state_4k_def)
  have before: "load (kernel_in_use 65) 70000 = Accessed 65"
    by (simp add: load_def kernel_in_use_def filled_page_def)
  from MarkPageInaccessible_page_faults[OF h1 h2 h3 h4] h5
  have "\<exists>os'. MarkPageInaccessible state_4k (kernel_in_use 65) 69632 = Returned os' \<and>
           prot_at os' 70000 = Some PROT_NONE \<and> load os' 70000 = Faulted \<and>
           store os' 70000 7 = Faulted" by blast
  with h1 h2 h3 h4 h5 before show ?thesis by blast
qed

subsection \<open>Reserving the region\<close>

text \<open>
  Claim C2. When \<open>MapRegion\<close> succeeds, that is, returns a base other than
  \<^verbatim>\<open>MAP_FAILED\<close>, every address of the \<open>RegionSize()\<close> bytes from the base on is mapped
  with protection \<open>PROT_NONE\<close>: it can be neither read nor written.
\<close>

theorem MapRegion_no_access:
  assumes "0 < os_page_size os" "MapRegion RegionSize st os k = Returned (base, os')"
    "base \<noteq> MAP_FAILED"
  shows "\<forall>a v. base \<le> a \<and> a < base + RegionSize st \<longrightarrow>
           prot_at os' a = Some PROT_NONE \<and> load os' a = Faulted \<and> store os' a v = Faulted"
proof (intro allI impI)
  fix a v assume a: "base \<le> a \<and> a < base + RegionSize st"
  from MapRegion_cases[OF assms(2)] assms(3)
  have os': "os' = map_anonymous os base (RegionSize st) PROT_NONE" by simp
  have "pages os' (a div os_page_size os') = Some (fresh_page PROT_NONE)"
    using a assms(1) by (simp add: os' map_anonymous_covers)
  then show "prot_at os' a = Some PROT_NONE \<and> load os' a = Faulted \<and> store os' a v = Faulted"
    by (rule fresh_page_inaccessible)
qed

theorem MapRegion_no_access_witness:
  "0 < os_page_size kernel_empty \<and>
   MapRegion nine_pages state_unreserved kernel_empty (Some 65536) = Returned (65536, kernel_reserved) \<and>
   65536 \<noteq> MAP_FAILED \<and>
   65536 \<le> (102399::nat) \<and> 102399 < 65536 + nine_pages state_unreserved \<and>
   prot_at kernel_reserved 102399 = Some PROT_NONE \<and> load kernel_reserved 102399 = Faulted \<and>
   store kernel_reserved 102399 7 = Faulted"
proof -
  have h1: "0 < os_page_size kernel_empty" by (simp add: kernel_empty_def)
  have h2: "MapRegion nine_pages state_unreserved kernel_empty (Some 65536) =
              Returned (65536, kernel_reserved)"
    by (rule MapRegion_nine_pages)
  have h3: "65536 \<noteq> MAP_FAILED" by (simp add: MAP_FAILED_def)
  have h4: "65536 \<le> (102399::nat) \<and> 102399 < 65536 + nine_pages state_unreserved"
    by (simp add: nine_pages_def state_unreserved_def)
  from MapRegion_no_access[OF h1 h2 h3] h4
  have "prot_at kernel_reserved 102399 = Some PROT_NONE \<and> load kernel_reserved 102399 = Faulted \<and>
        store kernel_reserved 102399 7 = Faulted" by blast
  with h1 h2 h3 h4 show ?thesis by blast
qed

subsection \<open>Making a page accessible\<close>

text \<open>
  Claim C3. For a page-aligned address \<open>p\<close> of a mapped page (every page of the region
  is), \<open>MarkPageReadWrite\<close> returns, and after it every address of \<open>[p, p + page_size)\<close>
  can be read and written: a load yields the byte the page holds, a store succeeds and the
  byte stored is read back. The call writes one entry of the page table, that of the page
  at \<open>p\<close>, whose protection becomes read-write and whose bytes are kept.
\<close>

theorem MarkPageReadWrite_page_accessible:
  assumes "0 < os_page_size os" "page_size st = os_page_size os" "os_page_size os dvd p"
    "pages os (p div os_page_size os) = Some pg"
  shows "\<exists>os'. MarkPageReadWrite st os p = Returned os' \<and>
           pages os' = (pages os)(p div os_page_size os \<mapsto> pg\<lparr>prot := {PROT_READ, PROT_WRITE}\<rparr>) \<and>
           (\<forall>a v. p \<le> a \<and> a < p + page_size st \<longrightarrow>
              prot_at os' a = Some {PROT_READ, PROT_WRITE} \<and>
              load os' a = Accessed (bytes pg (a mod os_page_size os)) \<and>
              (\<exists>os''. store os' a v = Accessed os'' \<and> load os'' a = Accessed v))"
proof -
  let ?os' = "os\<lparr>pages := (pages os)(p div os_page_size os \<mapsto> pg\<lparr>prot := {PROT_READ, PROT_WRITE}\<rparr>)\<rparr>"
  have "prot_at ?os' a = Some {PROT_READ, PROT_WRITE} \<and>
        load ?os' a = Accessed (bytes pg (a mod os_page_size os)) \<and>
        (\<exists>os''. store ?os' a v = Accessed os'' \<and> load os'' a = Accessed v)"
    if "p \<le> a \<and> a < p + page_size st" for a v
  proof -
    have "a div os_page_size os = p div os_page_size os"
      using that assms same_page_iff[of "os_page_size os" p a] by simp
    then show ?thesis by (simp add: prot_at_def load_def store_def)
  qed
  then show ?thesis using MarkPageReadWrite_mapped[OF assms] by simp
qed

theorem MarkPageReadWrite_page_accessible_witness:
  "0 < os_page_size kernel_reserved \<and> page_size state_4k = os_page_size kernel_reserved \<and>
   os_page_size kernel_reserved dvd 69632 \<and>
   pages kernel_reserved (69632 div os_page_size kernel_reserved) = Some (fresh_page PROT_NONE) \<and>
   load kernel_reserved 70000 = Faulted \<and>
   69632 \<le> (70000::nat) \<and> 70000 < 69632 + page_size state_4k \<and>
   (\<exists>os'. MarkPageReadWrite state_4k kernel_reserved 69632 = Returned os' \<and>
           pages os' = (pages kernel_reserved)(69632 div os_page_size kernel_reserved \<mapsto>
                          (fresh_page PROT_NONE)\<lparr>prot := {PROT_READ, PROT_WRITE}\<rparr>) \<and>
           prot_at os' 70000 = Some {PROT_READ, PROT_WRITE} \<and>
           load os' 70000 = Accessed 0 \<and>
           (\<exists>os''. store os' 70000 7 = Accessed os'' \<and> load os'' 70000 = Accessed 7))"
proof -
  note h = kernel_reserved_facts
  have h5: "69632 \<le> (70000::nat) \<and> 70000 < 69632 + page_size state_4k"
    by (simp add: state_4k_def)
  have before: "load kernel_reserved 70000 = Faulted"
    by (simp add: load_def kernel_reserved_def fresh_page_def PROT_NONE_def)
  have z: "bytes (fresh_page PROT_NONE) (70000 mod os_page_size kernel_reserved) = 0"
    by (simp add: fresh_page_def)
  from MarkPageReadWrite_page_accessible[OF h] h5
  have "\<exists>os'. MarkPageReadWrite state_4k kernel_reserved 69632 = Returned os' \<and>
           pages os' = (pages kernel_reserved)(69632 div os_page_size kernel_reserved \<mapsto>
                          (fresh_page PROT_NONE)\<lparr>prot := {PROT_READ, PROT_WRITE}\<rparr>) \<and>
           prot_at os' 70000 = Some {PROT_READ, PROT_WRITE} \<and>
           load os' 70000 =
             Accessed (bytes (fresh_page PROT_NONE) (70000 mod os_page_size kernel_reserved)) \<and>
           (\<exists>os''. store os' 70000 7 = Accessed os'' \<and> load os'' 70000 = Accessed 7)"
    by blast
  with h h5 before show ?thesis unfolding z by blast
qed

subsection \<open>Failure of the system call\<close>

text \<open>
  Claim C4, as stated: when the system call under \<open>MarkPageReadWrite\<close> or
  \<open>MarkPageInaccessible\<close> fails, the caller receives a result value that says so.
  The two functions return \<^verbatim>\<open>void\<close> and guard the system call with
  \<^verbatim>\<open>PCHECK\<close>. Below, \<^verbatim>\<open>mprotect\<close> fails on a page that is not mapped, and
  \<^verbatim>\<open>mmap\<close> fails on a pointer that is not page-aligned; in both cases the process is
  terminated and the caller receives nothing.
\<close>

theorem protection_failure_counterexample:
  "fst (mprotect kernel_empty 69632 (page_size state_4k) {PROT_READ, PROT_WRITE}) = - 1 \<and>
   MarkPageReadWrite state_4k kernel_empty 69632 = Aborted \<and>
   fst (mmap kernel_reserved 69633 (page_size state_4k) PROT_NONE
          {MAP_FIXED, MAP_ANONYMOUS, MAP_PRIVATE} 0 0 None) = MAP_FAILED \<and>
   MarkPageInaccessible state_4k kernel_reserved 69633 = Aborted"
  by (simp add: MarkPageReadWrite_def MarkPageInaccessible_def mprotect_def mmap_def
      range_mapped_def first_page_def end_page_def kernel_empty_def kernel_reserved_def
      state_4k_def MAP_FAILED_def)

text \<open>
  One pointer is set apart. \<^verbatim>\<open>PCHECK(err == ptr)\<close> compares the result of
  \<^verbatim>\<open>mmap\<close> with the pointer, and \<^verbatim>\<open>MAP_FAILED\<close> is itself a pointer value: at
  \<open>ptr = MAP_FAILED\<close>, which is the address of no page, the failed call passes the check.
\<close>

lemma MarkPageInaccessible_at_MAP_FAILED:
  "fst (mmap os MAP_FAILED (page_size st) PROT_NONE {MAP_FIXED, MAP_ANONYMOUS, MAP_PRIVATE}
          0 0 None) = MAP_FAILED \<and>
   MarkPageInaccessible st os MAP_FAILED = Returned os"
  by (simp add: MarkPageInaccessible_def mmap_def)

text \<open>
  Claim C4, amended. For \<open>MarkPageReadWrite\<close>, and for \<open>MarkPageInaccessible\<close> at a
  pointer other than \<^verbatim>\<open>MAP_FAILED\<close>, a failure of the system call terminates the
  process instead of being returned: \<open>MarkPageReadWrite\<close> aborts exactly when
  \<^verbatim>\<open>mprotect\<close> returns a value other than 0, and \<open>MarkPageInaccessible\<close> aborts
  exactly when \<^verbatim>\<open>mmap\<close> returns \<^verbatim>\<open>MAP_FAILED\<close>. The functions return
  \<^verbatim>\<open>void\<close>; when one of them returns, the system call has succeeded and the address
  space is the one the system call produced.
\<close>

theorem protection_failure_aborts:
  "(MarkPageReadWrite st os p = Aborted \<longleftrightarrow>
      fst (mprotect os p (page_size st) {PROT_READ, PROT_WRITE}) \<noteq> 0) \<and>
   (MarkPageReadWrite st os p = Returned os' \<longrightarrow>
      mprotect os p (page_size st) {PROT_READ, PROT_WRITE} = (0, os')) \<and>
   (p \<noteq> MAP_FAILED \<longrightarrow>
      (MarkPageInaccessible st os p = Aborted \<longleftrightarrow>
         fst (mmap os p (page_size st) PROT_NONE {MAP_FIXED, MAP_ANONYMOUS, MAP_PRIVATE} 0 0 None)
           = MAP_FAILED)) \<and>
   (p \<noteq> MAP_FAILED \<and> MarkPageInaccessible st os p = Returned os' \<longrightarrow>
      fst (mmap os p (page_size st) PROT_NONE {MAP_FIXED, MAP_ANONYMOUS, MAP_PRIVATE} 0 0 None)
        \<noteq> MAP_FAILED \<and>
      mmap os p (page_size st) PROT_NONE {MAP_FIXED, MAP_ANONYMOUS, MAP_PRIVATE} 0 0 None
        = (p, os'))"
proof (intro conjI impI)
  show "MarkPageReadWrite st os p = Aborted \<longleftrightarrow>
      fst (mprotect os p (page_size st) {PROT_READ, PROT_WRITE}) \<noteq> 0"
    by (simp add: MarkPageReadWrite_def split: prod.splits)
next
  assume "MarkPageReadWrite st os p = Returned os'"
  then show "mprotect os p (page_size st) {PROT_READ, PROT_WRITE} = (0, os')"
    by (simp add: MarkPageReadWrite_def split: prod.splits if_splits)
next
  assume "p \<noteq> MAP_FAILED"
  then show "MarkPageInaccessible st os p = Aborted \<longleftrightarrow>
         fst (mmap os p (page_size st) PROT_NONE {MAP_FIXED, MAP_ANONYMOUS, MAP_PRIVATE} 0 0 None)
           = MAP_FAILED"
    by (simp add: MarkPageInaccessible_def mmap_def)
next
  assume h: "p \<noteq> MAP_FAILED \<and> MarkPageInaccessible st os p = Returned os'"
  then have eq: "mmap os p (page_size st) PROT_NONE {MAP_FIXED, MAP_ANONYMOUS, MAP_PRIVATE} 0 0 None
        = (p, os')"
    by (simp add: MarkPageInaccessible_def split: prod.splits if_splits)
  with h show "fst (mmap os p (page_size st) PROT_NONE {MAP_FIXED, MAP_ANONYMOUS, MAP_PRIVATE}
                      0 0 None) \<noteq> MAP_FAILED" by simp
  from eq show "mmap os p (page_size st) PROT_NONE {MAP_FIXED, MAP_ANONYMOUS, MAP_PRIVATE} 0 0 None
        = (p, os')" .
qed

theorem protection_failure_aborts_witness:
  "fst (mprotect kernel_empty 69632 (page_size state_4k) {PROT_READ, PROT_WRITE}) \<noteq> 0 \<and>
   MarkPageReadWrite state_4k kernel_empty 69632 = Aborted \<and>
   MarkPageReadWrite state_4k kernel_reserved 69632 = Returned (kernel_in_use 0) \<and>
   mprotect kernel_reserved 69632 (page_size state_4k) {PROT_READ, PROT_WRITE}
     = (0, kernel_in_use 0) \<and>
   69633 \<noteq> MAP_FAILED \<and>
   fst (mmap kernel_reserved 69633 (page_size state_4k) PROT_NONE
          {MAP_FIXED, MAP_ANONYMOUS, MAP_PRIVATE} 0 0 None) = MAP_FAILED \<and>
   MarkPageInaccessible state_4k kernel_reserved 69633 = Aborted \<and>
   69632 \<noteq> MAP_FAILED \<and>
   MarkPageInaccessible state_4k (kernel_in_use 65) 69632 = Returned kernel_reserved \<and>
   fst (mmap (kernel_in_use 65) 69632 (page_size state_4k) PROT_NONE
          {MAP_FIXED, MAP_ANONYMOUS, MAP_PRIVATE} 0 0 None) \<noteq> MAP_FAILED \<and>
   mmap (kernel_in_use 65) 69632 (page_size state_4k) PROT_NONE
     {MAP_FIXED, MAP_ANONYMOUS, MAP_PRIVATE} 0 0 None = (69632, kernel_reserved)"
proof -
  have f1: "fst (mprotect kernel_empty 69632 (page_size state_4k) {PROT_READ, PROT_WRITE}) \<noteq> 0"
    by (simp add: mprotect_def range_mapped_def first_page_def end_page_def kernel_empty_def
        state_4k_def)
  have n1: "69633 \<noteq> MAP_FAILED" and n2: "69632 \<noteq> MAP_FAILED"
    by (simp_all add: MAP_FAILED_def)
  have f2: "fst (mmap kernel_reserved 69633 (page_size state_4k) PROT_NONE
          {MAP_FIXED, MAP_ANONYMOUS, MAP_PRIVATE} 0 0 None) = MAP_FAILED"
    by (simp add: mmap_def kernel_reserved_def state_4k_def)
  note r1 = MarkPageReadWrite_kernel_reserved
  note r2 = MarkPageInaccessible_kernel_in_use[of 65]
  from protection_failure_aborts[of state_4k kernel_empty 69632] f1
  have a1: "MarkPageReadWrite state_4k kernel_empty 69632 = Aborted" by blast
  from protection_failure_aborts[of state_4k kernel_reserved 69632 "kernel_in_use 0"] r1
  have a2: "mprotect kernel_reserved 69632 (page_size state_4k) {PROT_READ, PROT_WRITE}
     = (0, kernel_in_use 0)" by blast
  from protection_failure_aborts[of state_4k kernel_reserved 69633] n1 f2
  have a3: "MarkPageInaccessible state_4k kernel_reserved 69633 = Aborted" by blast
  from protection_failure_aborts[of state_4k "kernel_in_use 65" 69632 kernel_reserved] n2 r2
  have a4: "fst (mmap (kernel_in_use 65) 69632 (page_size state_4k) PROT_NONE
          {MAP_FIXED, MAP_ANONYMOUS, MAP_PRIVATE} 0 0 None) \<noteq> MAP_FAILED \<and>
     mmap (kernel_in_use 65) 69632 (page_size state_4k) PROT_NONE
     {MAP_FIXED, MAP_ANONYMOUS, MAP_PRIVATE} 0 0 None = (69632, kernel_reserved)" by blast
  from f1 n1 n2 f2 r1 r2 a1 a2 a3 a4 show ?thesis by blast
qed

subsection \<open>The frame of a page toggle\<close>

text \<open>
  Claim C5. When \<open>MarkPageReadWrite\<close> or \<open>MarkPageInaccessible\<close> returns, every
  address outside \<open>[p, p + page_size)\<close> has the page-table entry, the protection and the
  contents it had before. In particular a guard page next to the page at \<open>p\<close>, being
  inaccessible before, is inaccessible after.
\<close>

theorem page_toggle_frame:
  assumes "0 < os_page_size os" "page_size st = os_page_size os"
    "MarkPageReadWrite st os p = Returned os' \<or> MarkPageInaccessible st os p = Returned os'"
    "a < p \<or> p + page_size st \<le> a"
  shows "os_page_size os' = os_page_size os \<and>
         pages os' (a div os_page_size os) = pages os (a div os_page_size os) \<and>
         prot_at os' a = prot_at os a \<and> load os' a = load os a"
proof -
  have ne: "a div os_page_size os \<noteq> p div os_page_size os" if "os_page_size os dvd p"
    using that assms(1,2,4) same_page_iff[of "os_page_size os" p a] by auto
  have "os_page_size os' = os_page_size os \<and>
        pages os' (a div os_page_size os) = pages os (a div os_page_size os)"
    using assms(3)
  proof
    assume "MarkPageReadWrite st os p = Returned os'"
    from MarkPageReadWrite_Returned[OF assms(1,2) this] ne show ?thesis by auto
  next
    assume "MarkPageInaccessible st os p = Returned os'"
    from MarkPageInaccessible_Returned[OF assms(1,2) this] ne assms(1) show ?thesis
      by (auto simp: pages_map_anonymous_page)
  qed
  then have "os_page_size os' = os_page_size os"
    and "pages os' (a div os_page_size os) = pages os (a div os_page_size os)" by simp_all
  then show ?thesis by (simp add: prot_at_def load_def split: option.split)
qed

theorem page_toggle_frame_witness:
  "0 < os_page_size kernel_reserved \<and> page_size state_4k = os_page_size kernel_reserved \<and>
   MarkPageReadWrite state_4k kernel_reserved 69632 = Returned (kernel_in_use 0) \<and>
   (65536 < (69632::nat) \<and> 69632 + page_size state_4k \<le> 73728) \<and>
   prot_at kernel_reserved 65536 = Some PROT_NONE \<and>
   prot_at (kernel_in_use 0) 65536 = prot_at kernel_reserved 65536 \<and>
   load (kernel_in_use 0) 65536 = load kernel_reserved 65536 \<and>
   MarkPageInaccessible state_4k (kernel_in_use 65) 69632 = Returned kernel_reserved \<and>
   prot_at (kernel_in_use 65) 73728 = Some PROT_NONE \<and>
   prot_at kernel_reserved 73728 = prot_at (kernel_in_use 65) 73728 \<and>
   load kernel_reserved 73728 = load (kernel_in_use 65) 73728"
proof -
  note h = kernel_reserved_facts(1,2)
  note r1 = MarkPageReadWrite_kernel_reserved
  note g = kernel_in_use_facts(1,2)[of 65]
  note r2 = MarkPageInaccessible_kernel_in_use[of 65]
  have lt: "65536 < (69632::nat)" by simp
  have ge: "69632 + page_size state_4k \<le> 73728" by (simp add: state_4k_def)
  have p1: "prot_at kernel_reserved 65536 = Some PROT_NONE"
    by (simp add: prot_at_def kernel_reserved_def fresh_page_def)
  have p2: "prot_at (kernel_in_use 65) 73728 = Some PROT_NONE"
    by (simp add: prot_at_def kernel_in_use_def fresh_page_def)
  from page_toggle_frame[OF h disjI1[OF r1] disjI1[OF lt]]
  have c1: "prot_at (kernel_in_use 0) 65536 = prot_at kernel_reserved 65536 \<and>
            load (kernel_in_use 0) 65536 = load kernel_reserved 65536" by blast
  from page_toggle_frame[OF g disjI2[OF r2] disjI2[OF ge]]
  have c2: "prot_at kernel_reserved 73728 = prot_at (kernel_in_use 65) 73728 \<and>
            load kernel_reserved 73728 = load (kernel_in_use 65) 73728" by blast
  from h r1 lt ge p1 c1 r2 p2 c2 show ?thesis by blast
qed

subsection \<open>Toggling a page twice\<close>

text \<open>
  Claim C6. For a page-aligned \<open>p\<close>: \<open>MarkPageReadWrite\<close> on a page that is already
  read-write returns and leaves the address space as it is; \<open>MarkPageInaccessible\<close> on a
  page that already has no access returns and the page still has no access; and for either
  operation, a second call right after one that returned also returns and changes nothing,
  so two calls in a row have the effect of one.
\<close>

theorem page_toggle_idempotent:
  assumes "0 < os_page_size os" "page_size st = os_page_size os" "os_page_size os dvd p"
  shows "(prot_at os p = Some {PROT_READ, PROT_WRITE} \<longrightarrow> MarkPageReadWrite st os p = Returned os) \<and>
         (prot_at os p = Some PROT_NONE \<and> p + page_size st \<le> MAP_FAILED \<longrightarrow>
            (\<exists>os'. MarkPageInaccessible st os p = Returned os' \<and>
               (\<forall>a. p \<le> a \<and> a < p + page_size st \<longrightarrow> prot_at os' a = Some PROT_NONE))) \<and>
         (MarkPageReadWrite st os p = Returned os1 \<longrightarrow> MarkPageReadWrite st os1 p = Returned os1) \<and>
         (MarkPageInaccessible st os p = Returned os2 \<longrightarrow>
            MarkPageInaccessible st os2 p = Returned os2)"
proof (intro conjI impI)
  assume "prot_at os p = Some {PROT_READ, PROT_WRITE}"
  then obtain pg where pg: "pages os (p div os_page_size os) = Some pg"
    and pr: "prot pg = {PROT_READ, PROT_WRITE}" by (auto simp: prot_at_def)
  have "pg\<lparr>prot := {PROT_READ, PROT_WRITE}\<rparr> = pg" using pr by simp
  then have "(pages os)(p div os_page_size os \<mapsto> pg\<lparr>prot := {PROT_READ, PROT_WRITE}\<rparr>) = pages os"
    using pg by (simp add: map_upd_triv)
  then show "MarkPageReadWrite st os p = Returned os"
    using MarkPageReadWrite_mapped[OF assms pg] by simp
next
  assume "prot_at os p = Some PROT_NONE \<and> p + page_size st \<le> MAP_FAILED"
  then have fits: "p + page_size st \<le> MAP_FAILED" by simp
  show "\<exists>os'. MarkPageInaccessible st os p = Returned os' \<and>
               (\<forall>a. p \<le> a \<and> a < p + page_size st \<longrightarrow> prot_at os' a = Some PROT_NONE)"
    using MarkPageInaccessible_aligned[OF assms fits]
      map_anonymous_page_inaccessible[OF assms(1,3)] assms(2) by simp
next
  assume "MarkPageReadWrite st os p = Returned os1"
  with assms(1,2) show "MarkPageReadWrite st os1 p = Returned os1"
    by (rule MarkPageReadWrite_twice)
next
  assume "MarkPageInaccessible st os p = Returned os2"
  then show "MarkPageInaccessible st os2 p = Returned os2" by (rule MarkPageInaccessible_twice)
qed

theorem page_toggle_idempotent_witness:
  "0 < os_page_size kernel_reserved \<and> page_size state_4k = os_page_size kernel_reserved \<and>
   os_page_size kernel_reserved dvd 69632 \<and>
   prot_at (kernel_in_use 65) 69632 = Some {PROT_READ, PROT_WRITE} \<and>
   MarkPageReadWrite state_4k (kernel_in_use 65) 69632 = Returned (kernel_in_use 65) \<and>
   prot_at kernel_reserved 69632 = Some PROT_NONE \<and> 69632 + page_size state_4k \<le> MAP_FAILED \<and>
   MarkPageInaccessible state_4k kernel_reserved 69632 = Returned kernel_reserved \<and>
   MarkPageReadWrite state_4k kernel_reserved 69632 = Returned (kernel_in_use 0) \<and>
   MarkPageReadWrite state_4k (kernel_in_use 0) 69632 = Returned (kernel_in_use 0) \<and>
   MarkPageInaccessible state_4k (kernel_in_use 65) 69632 = Returned kernel_reserved"
proof -
  note h = kernel_reserved_facts(1,2,3)
  note g = kernel_in_use_facts(1,2,3)[of 65]
  note r1 = MarkPageReadWrite_kernel_reserved
  note r2 = MarkPageInaccessible_kernel_in_use[of 65]
  have p1: "prot_at (kernel_in_use 65) 69632 = Some {PROT_READ, PROT_WRITE}"
    by (simp add: prot_at_def kernel_in_use_def filled_page_def)
  have p2: "prot_at kernel_reserved 69632 = Some PROT_NONE \<and> 69632 + page_size state_4k \<le> MAP_FAILED"
    by (simp add: prot_at_def kernel_reserved_def fresh_page_def state_4k_def MAP_FAILED_def)
  from page_toggle_idempotent[OF g] p1
  have c1: "MarkPageReadWrite state_4k (kernel_in_use 65) 69632 = Returned (kernel_in_use 65)"
    by blast
  from page_toggle_idempotent[OF g, of _ kernel_reserved] r2
  have c4: "MarkPageInaccessible state_4k kernel_reserved 69632 = Returned kernel_reserved"
    by blast
  from page_toggle_idempotent[OF h, of "kernel_in_use 0"] r1
  have c3: "MarkPageReadWrite state_4k (kernel_in_use 0) 69632 = Returned (kernel_in_use 0)"
    by blast
  from h p1 p2 c1 c3 c4 r1 r2 show ?thesis by blast
qed

subsection \<open>Failure to reserve the region\<close>

text \<open>
  Claim C7. \<open>MapRegion\<close> always returns to its caller; it has no check that could
  terminate the process. What it returns is either \<^verbatim>\<open>MAP_FAILED\<close>, with the address
  space untouched, or a base address that is usable: different from \<^verbatim>\<open>MAP_FAILED\<close>
  and from null, page-aligned, and the start of \<open>RegionSize()\<close> bytes that were free
  before the call and are mapped after it. The caller can tell the failure from every
  usable base.
\<close>

theorem MapRegion_returns_base_or_MAP_FAILED:
  assumes "0 < os_page_size os"
  shows "\<exists>r os'. MapRegion RegionSize st os k = Returned (r, os') \<and>
           ((r = MAP_FAILED \<and> os' = os) \<or>
            (r \<noteq> MAP_FAILED \<and> r \<noteq> 0 \<and> os_page_size os dvd r \<and> 0 < RegionSize st \<and>
             r + RegionSize st \<le> MAP_FAILED \<and>
             (\<forall>a. r \<le> a \<and> a < r + RegionSize st \<longrightarrow>
                pages os (a div os_page_size os) = None \<and> prot_at os' a = Some PROT_NONE)))"
proof -
  obtain r os' where eq: "MapRegion RegionSize st os k = Returned (r, os')"
    by (cases "mmap os 0 (RegionSize st) PROT_NONE {MAP_ANONYMOUS, MAP_PRIVATE} (- 1) 0 k")
       (simp add: MapRegion_def)
  from MapRegion_cases[OF eq] show ?thesis
  proof
    assume "r = MAP_FAILED \<and> os' = os"
    with eq show ?thesis by blast
  next
    assume ok: "r \<noteq> MAP_FAILED \<and> r \<noteq> 0 \<and> r mod os_page_size os = 0 \<and> 0 < RegionSize st \<and>
          r + RegionSize st \<le> MAP_FAILED \<and> range_free os r (RegionSize st) \<and>
          os' = map_anonymous os r (RegionSize st) PROT_NONE"
    have "pages os (a div os_page_size os) = None \<and> prot_at os' a = Some PROT_NONE"
      if "r \<le> a \<and> a < r + RegionSize st" for a
      using that ok assms range_free_covers[of os r "RegionSize st" a]
      by (simp add: prot_at_def map_anonymous_covers fresh_page_def)
    with ok eq show ?thesis by (simp add: mod_eq_0_iff_dvd)
  qed
qed

theorem MapRegion_returns_base_or_MAP_FAILED_witness:
  "0 < os_page_size kernel_empty \<and>
   MapRegion nine_pages state_unreserved kernel_empty (Some 65536) = Returned (65536, kernel_reserved) \<and>
   65536 \<noteq> MAP_FAILED \<and> os_page_size kernel_empty dvd 65536 \<and>
   65536 + nine_pages state_unreserved \<le> MAP_FAILED \<and>
   65536 \<le> (70000::nat) \<and> 70000 < 65536 + nine_pages state_unreserved \<and>
   pages kernel_empty (70000 div os_page_size kernel_empty) = None \<and>
   prot_at kernel_reserved 70000 = Some PROT_NONE \<and>
   MapRegion nine_pages state_unreserved kernel_empty None = Returned (MAP_FAILED, kernel_empty)"
proof -
  have h1: "0 < os_page_size kernel_empty" by (simp add: kernel_empty_def)
  note r1 = MapRegion_nine_pages
  have n: "65536 \<noteq> MAP_FAILED" by (simp add: MAP_FAILED_def)
  have a: "65536 \<le> (70000::nat) \<and> 70000 < 65536 + nine_pages state_unreserved"
    by (simp add: nine_pages_def state_unreserved_def)
  from MapRegion_returns_base_or_MAP_FAILED[OF h1, of nine_pages state_unreserved "Some 65536"]
  obtain r os' where
    eq: "MapRegion nine_pages state_unreserved kernel_empty (Some 65536) = Returned (r, os')"
    and d: "(r = MAP_FAILED \<and> os' = kernel_empty) \<or>
            (r \<noteq> MAP_FAILED \<and> r \<noteq> 0 \<and> os_page_size kernel_empty dvd r \<and>
             0 < nine_pages state_unreserved \<and> r + nine_pages state_unreserved \<le> MAP_FAILED \<and>
             (\<forall>a. r \<le> a \<and> a < r + nine_pages state_unreserved \<longrightarrow>
                pages kernel_empty (a div os_page_size kernel_empty) = None \<and>
                prot_at os' a = Some PROT_NONE))" by blast
  from eq r1 have r: "r = 65536" and os': "os' = kernel_reserved" by simp_all
  from d n have ok: "os_page_size kernel_empty dvd 65536 \<and>
             65536 + nine_pages state_unreserved \<le> MAP_FAILED \<and>
             (\<forall>a. 65536 \<le> a \<and> a < 65536 + nine_pages state_unreserved \<longrightarrow>
                pages kernel_empty (a div os_page_size kernel_empty) = None \<and>
                prot_at kernel_reserved a = Some PROT_NONE)"
    unfolding r os' by blast
  from ok a have c1: "pages kernel_empty (70000 div os_page_size kernel_empty) = None \<and>
            prot_at kernel_reserved 70000 = Some PROT_NONE" by blast
  have c2: "MapRegion nine_pages state_unreserved kernel_empty None
              = Returned (MAP_FAILED, kernel_empty)"
    by (simp add: MapRegion_def mmap_def nine_pages_def state_unreserved_def kernel_empty_def)
  from h1 r1 n a ok c1 c2 show ?thesis by blast
qed

subsection \<open>Discarding the contents of a page\<close>

text \<open>
  Claim C9. \<open>MarkPageInaccessible\<close> maps a fresh anonymous page at \<open>p\<close>, so what the
  page held is gone. Take any two address spaces (they may differ in the bytes of the page
  at \<open>p\<close>, and anywhere else): in both, \<open>MarkPageInaccessible\<close> at \<open>p\<close> followed by
  \<open>MarkPageReadWrite\<close> at \<open>p\<close> returns, and afterwards every address of
  \<open>[p, p + page_size)\<close> reads as zero in both. Nothing written to the page before it was
  made inaccessible can be read from it after it is made accessible again.
\<close>

theorem page_contents_discarded:
  assumes "0 < os_page_size os" "page_size st = os_page_size os" "os_page_size os dvd p"
    "p + page_size st \<le> MAP_FAILED" "os_page_size os2 = os_page_size os"
  shows "\<exists>x x' y y'.
           MarkPageInaccessible st os p = Returned x \<and> MarkPageReadWrite st x p = Returned x' \<and>
           MarkPageInaccessible st os2 p = Returned y \<and> MarkPageReadWrite st y p = Returned y' \<and>
           (\<forall>a. p \<le> a \<and> a < p + page_size st \<longrightarrow>
              load x' a = Accessed 0 \<and> load y' a = load x' a)"
proof -
  from reuse_page_reads_zero[OF assms(1-4)] obtain x x' where
    x: "MarkPageInaccessible st os p = Returned x" "MarkPageReadWrite st x p = Returned x'"
       "\<forall>a. p \<le> a \<and> a < p + page_size st \<longrightarrow> load x' a = Accessed 0" by blast
  from reuse_page_reads_zero[of os2 st p] assms obtain y y' where
    y: "MarkPageInaccessible st os2 p = Returned y" "MarkPageReadWrite st y p = Returned y'"
       "\<forall>a. p \<le> a \<and> a < p + page_size st \<longrightarrow> load y' a = Accessed 0" by auto
  from x(3) y(3) have "\<forall>a. p \<le> a \<and> a < p + page_size st \<longrightarrow>
              load x' a = Accessed 0 \<and> load y' a = load x' a" by simp
  with x(1,2) y(1,2) show ?thesis by blast
qed

theorem page_contents_discarded_witness:
  "0 < os_page_size (kernel_in_use 65) \<and> page_size state_4k = os_page_size (kernel_in_use 65) \<and>
   os_page_size (kernel_in_use 65) dvd 69632 \<and> 69632 + page_size state_4k \<le> MAP_FAILED \<and>
   os_page_size (kernel_in_use 66) = os_page_size (kernel_in_use 65) \<and>
   load (kernel_in_use 65) 70000 = Accessed 65 \<and> load (kernel_in_use 66) 70000 = Accessed 66 \<and>
   69632 \<le> (70000::nat) \<and> 70000 < 69632 + page_size state_4k \<and>
   (\<exists>x x' y y'.
      MarkPageInaccessible state_4k (kernel_in_use 65) 69632 = Returned x \<and>
      MarkPageReadWrite state_4k x 69632 = Returned x' \<and>
      MarkPageInaccessible state_4k (kernel_in_use 66) 69632 = Returned y \<and>
      MarkPageReadWrite state_4k y 69632 = Returned y' \<and>
      load x' 70000 = Accessed 0 \<and> load y' 70000 = load x' 70000)"
proof -
  note g = kernel_in_use_facts(1-3)[of 65] kernel_in_use_facts(4)
  have s: "os_page_size (kernel_in_use 66) = os_page_size (kernel_in_use 65)"
    by (simp add: kernel_in_use_def)
  have b: "load (kernel_in_use 65) 70000 = Accessed 65 \<and> load (kernel_in_use 66) 70000 = Accessed 66"
    by (simp add: load_def kernel_in_use_def filled_page_def)
  have a: "69632 \<le> (70000::nat) \<and> 70000 < 69632 + page_size state_4k"
    by (simp add: state_4k_def)
  from page_contents_discarded[OF g s] a
  have "\<exists>x x' y y'.
      MarkPageInaccessible state_4k (kernel_in_use 65) 69632 = Returned x \<and>
      MarkPageReadWrite state_4k x 69632 = Returned x' \<and>
      MarkPageInaccessible state_4k (kernel_in_use 66) 69632 = Returned y \<and>
      MarkPageReadWrite state_4k y 69632 = Returned y' \<and>
      load x' 70000 = Accessed 0 \<and> load y' 70000 = load x' 70000" by blast
  with g s b a show ?thesis by blast
qed

subsection \<open>Releasing the region\<close>

text \<open>
  Claim C10, as stated: \<open>UnmapRegion\<close> called when no region has been reserved
  successfully is a checked fatal error, never a silent no-op. The check is
  \<^verbatim>\<open>CHECK(state_.pages_base_addr)\<close>, and it looks at nothing but the stored base.
  Below, the stored base is 65536 and nothing is mapped (as it is after the region has
  been released once): \<^verbatim>\<open>munmap\<close> of a range with no mapping succeeds, and the call
  returns with the address space unchanged, even with \<^verbatim>\<open>DCHECK\<close>s enabled. And
  a reservation that failed yields \<^verbatim>\<open>MAP_FAILED\<close>, which is not null: with that value
  as the stored base, \<^verbatim>\<open>munmap\<close> fails and a build without \<^verbatim>\<open>DCHECK\<close>s returns
  all the same.
\<close>

theorem UnmapRegion_silent_counterexample:
  "pages_base_addr state_4k = 65536 \<and>
   UnmapRegion True nine_pages state_4k kernel_reserved = Returned kernel_empty \<and>
   UnmapRegion True nine_pages state_4k kernel_empty = Returned kernel_empty \<and>
   MapRegion nine_pages state_unreserved kernel_empty None = Returned (MAP_FAILED, kernel_empty) \<and>
   pages_base_addr state_failed = MAP_FAILED \<and>
   fst (munmap kernel_empty (pages_base_addr state_failed) (nine_pages state_failed)) = - 1 \<and>
   UnmapRegion False nine_pages state_failed kernel_empty = Returned kernel_empty"
proof -
  have 1: "pages_base_addr state_4k = 65536" by (simp add: state_4k_def)
  have 2: "UnmapRegion True nine_pages state_4k kernel_reserved = Returned kernel_empty"
    by (simp add: UnmapRegion_def munmap_def state_4k_def nine_pages_def kernel_reserved_def
        kernel_empty_def MAP_FAILED_def in_range_def first_page_def end_page_def fun_eq_iff)
  have 3: "UnmapRegion True nine_pages state_4k kernel_empty = Returned kernel_empty"
    by (simp add: UnmapRegion_def munmap_def state_4k_def nine_pages_def kernel_empty_def
        MAP_FAILED_def fun_eq_iff)
  have 4: "MapRegion nine_pages state_unreserved kernel_empty None
             = Returned (MAP_FAILED, kernel_empty)"
    by (simp add: MapRegion_def mmap_def nine_pages_def state_unreserved_def kernel_empty_def)
  have 5: "pages_base_addr state_failed = MAP_FAILED" by (simp add: state_failed_def)
  have 6: "fst (munmap kernel_empty (pages_base_addr state_failed) (nine_pages state_failed)) = - 1"
    by (simp add: munmap_def state_failed_def nine_pages_def kernel_empty_def MAP_FAILED_def)
  have 7: "UnmapRegion False nine_pages state_failed kernel_empty = Returned kernel_empty"
    by (simp add: UnmapRegion_def munmap_def state_failed_def nine_pages_def kernel_empty_def
        MAP_FAILED_def)
  from 1 2 3 4 5 6 7 show ?thesis by blast
qed

text \<open>
  Claim C10, amended. \<open>UnmapRegion\<close> asserts, fatally to the process, that the stored
  base address of the region is not null, and checks nothing else about it in every build:
  it terminates the process exactly when the stored base is null or, in a build with
  \<^verbatim>\<open>DCHECK\<close>s enabled, when \<^verbatim>\<open>munmap\<close> fails. Called with a null base (the state
  in which no reservation has stored a base) it is a checked fatal error in every build,
  never a silent no-op. Called with the base and size of a successfully reserved region (a
  base that is not null and page-aligned, a size of whole pages, within the address space)
  it returns, and exactly the addresses of \<open>[base, base + RegionSize())\<close> have been
  unmapped: they are unmapped, and every other address has the page it had.
\<close>

theorem UnmapRegion_checks_base:
  assumes "0 < os_page_size os"
  shows "(UnmapRegion dcheck_is_on RegionSize st os = Aborted \<longleftrightarrow>
            pages_base_addr st = 0 \<or>
            (dcheck_is_on \<and> fst (munmap os (pages_base_addr st) (RegionSize st)) \<noteq> 0)) \<and>
         (pages_base_addr st = 0 \<longrightarrow> UnmapRegion dcheck_is_on RegionSize st os = Aborted) \<and>
         (pages_base_addr st \<noteq> 0 \<and> os_page_size os dvd pages_base_addr st \<and>
          0 < RegionSize st \<and> os_page_size os dvd RegionSize st \<and>
          pages_base_addr st + RegionSize st \<le> MAP_FAILED \<longrightarrow>
            (\<exists>os'. UnmapRegion dcheck_is_on RegionSize st os = Returned os' \<and>
               os_page_size os' = os_page_size os \<and>
               (\<forall>a. pages os' (a div os_page_size os) =
                  (if pages_base_addr st \<le> a \<and> a < pages_base_addr st + RegionSize st then None
                   else pages os (a div os_page_size os)))))"
proof (intro conjI impI)
  show "UnmapRegion dcheck_is_on RegionSize st os = Aborted \<longleftrightarrow>
            pages_base_addr st = 0 \<or>
            (dcheck_is_on \<and> fst (munmap os (pages_base_addr st) (RegionSize st)) \<noteq> 0)"
    by (simp add: UnmapRegion_def split: prod.splits)
next
  assume "pages_base_addr st = 0"
  then show "UnmapRegion dcheck_is_on RegionSize st os = Aborted"
    by (simp add: UnmapRegion_def)
next
  assume h: "pages_base_addr st \<noteq> 0 \<and> os_page_size os dvd pages_base_addr st \<and>
          0 < RegionSize st \<and> os_page_size os dvd RegionSize st \<and>
          pages_base_addr st + RegionSize st \<le> MAP_FAILED"
  let ?os' = "os\<lparr>pages := (\<lambda>i. if in_range os (pages_base_addr st) (RegionSize st) i then None
                               else pages os i)\<rparr>"
  have "UnmapRegion dcheck_is_on RegionSize st os = Returned ?os'"
    using h assms by (simp add: UnmapRegion_def munmap_region)
  moreover have "pages ?os' (a div os_page_size os) =
                  (if pages_base_addr st \<le> a \<and> a < pages_base_addr st + RegionSize st then None
                   else pages os (a div os_page_size os))" for a
    using h assms in_range_exact[of os "pages_base_addr st" "RegionSize st" a] by simp
  ultimately show "\<exists>os'. UnmapRegion dcheck_is_on RegionSize st os = Returned os' \<and>
               os_page_size os' = os_page_size os \<and>
               (\<forall>a. pages os' (a div os_page_size os) =
                  (if pages_base_addr st \<le> a \<and> a < pages_base_addr st + RegionSize st then None
                   else pages os (a div os_page_size os)))"
    by simp
qed

theorem UnmapRegion_checks_base_witness:
  "0 < os_page_size kernel_empty \<and> pages_base_addr state_unreserved = 0 \<and>
   UnmapRegion False nine_pages state_unreserved kernel_empty = Aborted \<and>
   fst (munmap kernel_empty (pages_base_addr state_failed) (nine_pages state_failed)) \<noteq> 0 \<and>
   UnmapRegion True nine_pages state_failed kernel_empty = Aborted \<and>
   0 < os_page_size (kernel_in_use 65) \<and>
   pages_base_addr state_4k \<noteq> 0 \<and> os_page_size (kernel_in_use 65) dvd pages_base_addr state_4k \<and>
   0 < nine_pages state_4k \<and> os_page_size (kernel_in_use 65) dvd nine_pages state_4k \<and>
   pages_base_addr state_4k + nine_pages state_4k \<le> MAP_FAILED \<and>
   (\<exists>os'. UnmapRegion False nine_pages state_4k (kernel_in_use 65) = Returned os' \<and>
           os_page_size os' = os_page_size (kernel_in_use 65) \<and>
           pages os' (70000 div os_page_size (kernel_in_use 65)) = None \<and>
           pages os' (200000 div os_page_size (kernel_in_use 65)) =
             pages (kernel_in_use 65) (200000 div os_page_size (kernel_in_use 65)))"
proof -
  have h1: "0 < os_page_size kernel_empty" by (simp add: kernel_empty_def)
  have z: "pages_base_addr state_unreserved = 0" by (simp add: state_unreserved_def)
  have m: "fst (munmap kernel_empty (pages_base_addr state_failed) (nine_pages state_failed)) \<noteq> 0"
    by (simp add: munmap_def state_failed_def nine_pages_def kernel_empty_def MAP_FAILED_def)
  note g = kernel_in_use_facts(1)[of 65]
  have pre: "pages_base_addr state_4k \<noteq> 0 \<and>
     os_page_size (kernel_in_use 65) dvd pages_base_addr state_4k \<and>
     0 < nine_pages state_4k \<and> os_page_size (kernel_in_use 65) dvd nine_pages state_4k \<and>
     pages_base_addr state_4k + nine_pages state_4k \<le> MAP_FAILED"
    by (simp add: state_4k_def kernel_in_use_def nine_pages_def MAP_FAILED_def)
  from UnmapRegion_checks_base[OF h1, of False nine_pages state_unreserved] z
  have c1: "UnmapRegion False nine_pages state_unreserved kernel_empty = Aborted" by blast
  from UnmapRegion_checks_base[OF h1, of True nine_pages state_failed] m
  have c2: "UnmapRegion True nine_pages state_failed kernel_empty = Aborted" by blast
  from UnmapRegion_checks_base[OF g, of False nine_pages state_4k] pre
  obtain os' where r: "UnmapRegion False nine_pages state_4k (kernel_in_use 65) = Returned os'"
    and s: "os_page_size os' = os_page_size (kernel_in_use 65)"
    and f: "\<forall>a. pages os' (a div os_page_size (kernel_in_use 65)) =
              (if pages_base_addr state_4k \<le> a \<and> a < pages_base_addr state_4k + nine_pages state_4k
               then None else pages (kernel_in_use 65) (a div os_page_size (kernel_in_use 65)))"
    by blast
  have "pages os' (70000 div os_page_size (kernel_in_use 65)) = None"
    using f[rule_format, of 70000] by (simp add: state_4k_def nine_pages_def)
  moreover have "pages os' (200000 div os_page_size (kernel_in_use 65)) =
             pages (kernel_in_use 65) (200000 div os_page_size (kernel_in_use 65))"
    using f[rule_format, of 200000] by (simp add: state_4k_def nine_pages_def)
  ultimately show ?thesis using h1 z m g pre c1 c2 r s by blast
qed

section \<open>Exhausting the pool\<close>

text \<open>
  Claim C8. With a page size of 4096 bytes and 4 slots, on a freshly initialised pool the
  first four calls of \<open>Allocate\<close> for requests that a page can serve (at most 4096
  bytes, an alignment from 1 to 4096), whatever the random draws, each return a pointer; a
  fifth call, made while the four allocations are outstanding, returns "no slot", whatever
  it asks for.
\<close>

theorem four_allocations_then_no_slot:
  assumes "Initialize 4096 4 reservation = Inr p0"
    "s1 \<le> 4096 \<and> 0 < a1 \<and> a1 \<le> 4096" "s2 \<le> 4096 \<and> 0 < a2 \<and> a2 \<le> 4096"
    "s3 \<le> 4096 \<and> 0 < a3 \<and> a3 \<le> 4096" "s4 \<le> 4096 \<and> 0 < a4 \<and> a4 \<le> 4096"
  shows "\<exists>q1 q2 q3 q4 p1 p2 p3 p4.
           Allocate p0 s1 a1 r1 b1 = (Some q1, p1) \<and>
           Allocate p1 s2 a2 r2 b2 = (Some q2, p2) \<and>
           Allocate p2 s3 a3 r3 b3 = (Some q3, p3) \<and>
           Allocate p3 s4 a4 r4 b4 = (Some q4, p4) \<and>
           Allocate p4 s5 a5 r5 b5 = (None, p4)"
proof -
  from Initialize_fresh[OF assms(1)]
  have ps0: "pool_page_size p0 = 4096" and n0: "length (free_slots p0) = 4" by simp_all
  from n0 have "free_slots p0 \<noteq> []" by auto
  with assms(2) ps0 Allocate_succeeds[of s1 p0 a1 r1 b1] obtain q1 p1 where
    1: "Allocate p0 s1 a1 r1 b1 = (Some q1, p1)" and ps1: "pool_page_size p1 = 4096"
    and n1: "length (free_slots p1) = 3" using n0 by auto
  from n1 have "free_slots p1 \<noteq> []" by auto
  with assms(3) ps1 Allocate_succeeds[of s2 p1 a2 r2 b2] obtain q2 p2 where
    2: "Allocate p1 s2 a2 r2 b2 = (Some q2, p2)" and ps2: "pool_page_size p2 = 4096"
    and n2: "length (free_slots p2) = 2" using n1 by auto
  from n2 have "free_slots p2 \<noteq> []" by auto
  with assms(4) ps2 Allocate_succeeds[of s3 p2 a3 r3 b3] obtain q3 p3 where
    3: "Allocate p2 s3 a3 r3 b3 = (Some q3, p3)" and ps3: "pool_page_size p3 = 4096"
    and n3: "length (free_slots p3) = 1" using n2 by auto
  from n3 have "free_slots p3 \<noteq> []" by auto
  with assms(5) ps3 Allocate_succeeds[of s4 p3 a4 r4 b4] obtain q4 p4 where
    4: "Allocate p3 s4 a4 r4 b4 = (Some q4, p4)" and ps4: "pool_page_size p4 = 4096"
    and n4: "length (free_slots p4) = 0" using n3 by auto
  from n4 have "Allocate p4 s5 a5 r5 b5 = (None, p4)" by (simp add: Allocate_exhausted)
  with 1 2 3 4 show ?thesis by blast
qed

theorem four_allocations_then_no_slot_witness:
  "Initialize 4096 4 (Some 65536) = Inr pool_4_slots \<and>
   ((16::nat) \<le> 4096 \<and> (0::nat) < 8 \<and> (8::nat) \<le> 4096) \<and>
   ((4096::nat) \<le> 4096 \<and> (0::nat) < 1 \<and> (1::nat) \<le> 4096) \<and>
   ((0::nat) \<le> 4096 \<and> (0::nat) < 4096 \<and> (4096::nat) \<le> 4096) \<and>
   ((100::nat) \<le> 4096 \<and> (0::nat) < 16 \<and> (16::nat) \<le> 4096) \<and>
   (\<exists>q1 q2 q3 q4 p1 p2 p3 p4.
      Allocate pool_4_slots 16 8 5 True = (Some q1, p1) \<and>
      Allocate p1 4096 1 2 False = (Some q2, p2) \<and>
      Allocate p2 0 4096 7 True = (Some q3, p3) \<and>
      Allocate p3 100 16 0 False = (Some q4, p4) \<and>
      Allocate p4 32 8 3 True = (None, p4))"
proof -
  have h0: "Initialize 4096 4 (Some 65536) = Inr pool_4_slots"
    by (simp add: Initialize_def pool_4_slots_def)
  have h1: "(16::nat) \<le> 4096 \<and> (0::nat) < 8 \<and> (8::nat) \<le> 4096" by simp
  have h2: "(4096::nat) \<le> 4096 \<and> (0::nat) < 1 \<and> (1::nat) \<le> 4096" by simp
  have h3: "(0::nat) \<le> 4096 \<and> (0::nat) < 4096 \<and> (4096::nat) \<le> 4096" by simp
  have h4: "(100::nat) \<le> 4096 \<and> (0::nat) < 16 \<and> (16::nat) \<le> 4096" by simp
  from four_allocations_then_no_slot[OF h0 h1 h2 h3 h4, of 5 True 2 False 7 True 0 False 32 8 3 True]
    h0 h1 h2 h3 h4 show ?thesis by blast
qed

end
